theory Spec2Isabelle
  imports Main "HOL-Library.Word" "HOL-Library.AList" "HOL-Library.Multiset"
begin

section \<open>JavaScript strings\<close>

text \<open>
  A JavaScript string is a sequence of UTF-16 code units; \<open>value.length\<close> counts code
  units and the regular expressions of the rule set (none has the \<open>u\<close> flag) test code
  units. Rule names, messages and DOM ids are only ever compared for equality and are
  kept as \<^typ>\<open>string\<close>.
\<close>

type_synonym code_unit = "16 word"
type_synonym jsstring = "code_unit list"

definition js :: "string \<Rightarrow> jsstring" where
  "js s = map of_char s"

text \<open>
  The set matched by \<open>\s\<close> and stripped by \<open>String.prototype.trim\<close> (ECMAScript
  WhiteSpace and LineTerminator): TAB, LF, VT, FF, CR, SP, NBSP, U+1680, U+2000..U+200A,
  U+2028, U+2029, U+202F, U+205F, U+3000 and U+FEFF.
\<close>

definition isWhiteSpace :: "code_unit \<Rightarrow> bool" where
  "isWhiteSpace c =
     (c = 0x09 \<or> c = 0x0A \<or> c = 0x0B \<or> c = 0x0C \<or> c = 0x0D \<or> c = 0x20 \<or> c = 0xA0 \<or>
      c = 0x1680 \<or> (0x2000 \<le> c \<and> c \<le> 0x200A) \<or> c = 0x2028 \<or> c = 0x2029 \<or>
      c = 0x202F \<or> c = 0x205F \<or> c = 0x3000 \<or> c = 0xFEFF)"

definition trimStart :: "jsstring \<Rightarrow> jsstring" where
  "trimStart s = dropWhile isWhiteSpace s"

definition trimEnd :: "jsstring \<Rightarrow> jsstring" where
  "trimEnd s = rev (dropWhile isWhiteSpace (rev s))"

definition trim :: "jsstring \<Rightarrow> jsstring" where
  "trim s = trimEnd (trimStart s)"

definition isUpper :: "code_unit \<Rightarrow> bool" where
  "isUpper c = (0x41 \<le> c \<and> c \<le> 0x5A)"

definition isLower :: "code_unit \<Rightarrow> bool" where
  "isLower c = (0x61 \<le> c \<and> c \<le> 0x7A)"

definition isDigit :: "code_unit \<Rightarrow> bool" where
  "isDigit c = (0x30 \<le> c \<and> c \<le> 0x39)"

definition isUnderscore :: "code_unit \<Rightarrow> bool" where
  "isUnderscore c = (c = 0x5F)"

text \<open>\<open>/^[A-Z]/.test(value)\<close>\<close>

definition startsWithCapital :: "jsstring \<Rightarrow> bool" where
  "startsWithCapital v = (case v of [] \<Rightarrow> False | c # _ \<Rightarrow> isUpper c)"

text \<open>\<open>/\s/.test(value)\<close>\<close>

definition hasWhiteSpace :: "jsstring \<Rightarrow> bool" where
  "hasWhiteSpace v = list_ex isWhiteSpace v"

text \<open>\<open>/^[A-Za-z0-9_]+$/.test(value)\<close>: one or more code units, all of the class.\<close>

definition alphanumericUnderscore :: "jsstring \<Rightarrow> bool" where
  "alphanumericUnderscore v =
     (v \<noteq> [] \<and> list_all (\<lambda>c. isUpper c \<or> isLower c \<or> isDigit c \<or> isUnderscore c) v)"

text \<open>\<open>/_$/.test(value)\<close>: without the \<open>m\<close> flag, \<open>$\<close> is the end of the input.\<close>

definition endsWithUnderscore :: "jsstring \<Rightarrow> bool" where
  "endsWithUnderscore v = (case rev v of [] \<Rightarrow> False | c # _ \<Rightarrow> isUnderscore c)"

text \<open>\<open>/__/.test(value)\<close>\<close>

fun hasDoubleUnderscore :: "jsstring \<Rightarrow> bool" where
  "hasDoubleUnderscore (a # b # cs) =
     ((isUnderscore a \<and> isUnderscore b) \<or> hasDoubleUnderscore (b # cs))"
| "hasDoubleUnderscore _ = False"

text \<open>\<open>/^[0-9]/.test(value)\<close>\<close>

definition startsWithDigit :: "jsstring \<Rightarrow> bool" where
  "startsWithDigit v = (case v of [] \<Rightarrow> False | c # _ \<Rightarrow> isDigit c)"


section \<open>ValidationRules: the rule registry\<close>

text \<open>
  \<open>ValidationRule\<close> of \<open>shared/types\<close>. The predicate \<open>check\<close> is caller-supplied code:
  \<open>None\<close> stands for a call that throws. \<open>priority\<close> is optional.
\<close>

record ValidationRule =
  name :: string
  check :: "jsstring \<Rightarrow> bool option"
  message :: string
  priority :: "int option"

definition MAX_SAFE_INTEGER :: int where
  "MAX_SAFE_INTEGER = 9007199254740991"

text \<open>\<open>rule.priority ?? Number.MAX_SAFE_INTEGER\<close>\<close>

definition priorityOf :: "ValidationRule \<Rightarrow> int" where
  "priorityOf r = (case priority r of None \<Rightarrow> MAX_SAFE_INTEGER | Some p \<Rightarrow> p)"

text \<open>
  \<open>sortByPriority\<close>: \<open>Array.prototype.sort\<close> with the comparator
  \<open>priorityA - priorityB\<close>; the sort is stable (ECMAScript 2019), as \<^const>\<open>sort_key\<close> is.
\<close>

definition sortByPriority :: "ValidationRule list \<Rightarrow> ValidationRule list" where
  "sortByPriority rules = sort_key priorityOf rules"

text \<open>\<open>Array.prototype.findIndex\<close>; \<open>None\<close> is the source's \<open>-1\<close>.\<close>

fun findIndex :: "('a \<Rightarrow> bool) \<Rightarrow> 'a list \<Rightarrow> nat option" where
  "findIndex p [] = None"
| "findIndex p (x # xs) =
     (if p x then Some 0 else (case findIndex p xs of None \<Rightarrow> None | Some i \<Rightarrow> Some (Suc i)))"

definition defaultRules :: "ValidationRule list" where
  "defaultRules =
    [\<lparr>name = ''not-empty'', check = (\<lambda>v. Some (length v > 0)),
      message = ''Field cannot be empty'', priority = Some 1\<rparr>,
     \<lparr>name = ''starts-with-capital'', check = (\<lambda>v. Some (startsWithCapital v)),
      message = ''Must start with capital letter'', priority = Some 2\<rparr>,
     \<lparr>name = ''no-spaces'', check = (\<lambda>v. Some (\<not> hasWhiteSpace v)),
      message = ''No spaces allowed'', priority = Some 3\<rparr>,
     \<lparr>name = ''alphanumeric-underscore'', check = (\<lambda>v. Some (alphanumericUnderscore v)),
      message = ''Only letters, numbers, and underscore allowed'', priority = Some 4\<rparr>,
     \<lparr>name = ''min-length'', check = (\<lambda>v. Some (length v \<ge> 3)),
      message = ''Must be at least 3 characters'', priority = Some 5\<rparr>,
     \<lparr>name = ''max-length'', check = (\<lambda>v. Some (length v \<le> 50)),
      message = ''Cannot exceed 50 characters'', priority = Some 6\<rparr>,
     \<lparr>name = ''no-trailing-underscore'', check = (\<lambda>v. Some (\<not> endsWithUnderscore v)),
      message = ''Cannot end with underscore'', priority = Some 7\<rparr>,
     \<lparr>name = ''no-consecutive-underscores'', check = (\<lambda>v. Some (\<not> hasDoubleUnderscore v)),
      message = ''No consecutive underscores'', priority = Some 8\<rparr>,
     \<lparr>name = ''no-leading-number'', check = (\<lambda>v. Some (\<not> startsWithDigit v)),
      message = ''Cannot start with number'', priority = Some 9\<rparr>]"

text \<open>The constructor: \<open>initializeDefaultRules\<close> stores the defaults and sorts them.\<close>

definition initializeDefaultRules :: "ValidationRule list" where
  "initializeDefaultRules = sortByPriority defaultRules"

definition getAll :: "ValidationRule list \<Rightarrow> ValidationRule list" where
  "getAll rules = rules"

definition getExcluding :: "ValidationRule list \<Rightarrow> string list \<Rightarrow> ValidationRule list" where
  "getExcluding rules excludedNames = filter (\<lambda>rule. name rule \<notin> set excludedNames) rules"

text \<open>\<open>add\<close>: overwrite the first rule of that name in place, or push; then sort.\<close>

definition add_rule :: "ValidationRule list \<Rightarrow> ValidationRule \<Rightarrow> ValidationRule list" where
  "add_rule rules rule =
     sortByPriority
       (case findIndex (\<lambda>r. name r = name rule) rules of
          Some existingIndex \<Rightarrow> rules[existingIndex := rule]
        | None \<Rightarrow> rules @ [rule])"

text \<open>\<open>remove\<close>: \<open>splice(index, 1)\<close> at the first rule of that name; the flag is the result.\<close>

definition remove_rule :: "ValidationRule list \<Rightarrow> string \<Rightarrow> bool \<times> ValidationRule list" where
  "remove_rule rules n =
     (case findIndex (\<lambda>rule. name rule = n) rules of
        Some index \<Rightarrow> (True, take index rules @ drop (Suc index) rules)
      | None \<Rightarrow> (False, rules))"

text \<open>A history of registry operations, applied in order from the left.\<close>

datatype rule_op = Add ValidationRule | Remove string

fun apply_op :: "ValidationRule list \<Rightarrow> rule_op \<Rightarrow> ValidationRule list" where
  "apply_op rules (Add rule) = add_rule rules rule"
| "apply_op rules (Remove n) = snd (remove_rule rules n)"

definition apply_ops :: "rule_op list \<Rightarrow> ValidationRule list \<Rightarrow> ValidationRule list" where
  "apply_ops ops rules = foldl apply_op rules ops"


section \<open>RuleExecutor and ValidatorEngine\<close>

text \<open>
  \<open>executeRules\<close>: every rule is run, in list order; the message of each rule whose
  check is false is pushed. A check that throws ends the loop with the exception
  (\<open>None\<close>).
\<close>

fun executeRules :: "jsstring \<Rightarrow> ValidationRule list \<Rightarrow> string list option" where
  "executeRules v [] = Some []"
| "executeRules v (rule # rules) =
     (case check rule v of
        None \<Rightarrow> None
      | Some ok \<Rightarrow>
          (case executeRules v rules of
             None \<Rightarrow> None
           | Some errors \<Rightarrow> Some (if \<not> ok then message rule # errors else errors)))"

definition executeRulesExcluding ::
  "jsstring \<Rightarrow> ValidationRule list \<Rightarrow> string list \<Rightarrow> string list option" where
  "executeRulesExcluding v rules excludedNames =
     executeRules v (filter (\<lambda>rule. name rule \<notin> set excludedNames) rules)"

record ValidatorEngineConfig =
  enableEmptyFieldOptimization :: bool
  stopOnFirstError :: bool
  maxErrorsPerField :: nat

definition defaultEngineConfig :: ValidatorEngineConfig where
  "defaultEngineConfig =
     \<lparr>enableEmptyFieldOptimization = True, stopOnFirstError = False, maxErrorsPerField = 10\<rparr>"

text \<open>
  \<open>ValidationResult\<close>, as \<open>createResult\<close> builds it. Its \<open>timestamp\<close> (the wall clock at
  creation) is read by no caller and is left out.
\<close>

record ValidationResult =
  isValid :: bool
  errors :: "string list"

definition createResult :: "bool \<Rightarrow> string list \<Rightarrow> ValidationResult" where
  "createResult ok errs = \<lparr>isValid = ok, errors = errs\<rparr>"

record ValidatorEngine =
  rules :: "ValidationRule list"
  config :: ValidatorEngineConfig

definition newValidatorEngine :: "ValidatorEngineConfig \<Rightarrow> ValidatorEngine" where
  "newValidatorEngine cfg = \<lparr>rules = initializeDefaultRules, config = cfg\<rparr>"

text \<open>
  \<open>validate(field)\<close>, on the field's live value. The \<open>catch\<close> turns a throwing check
  into the generic failure.
\<close>

definition validate :: "ValidatorEngine \<Rightarrow> jsstring \<Rightarrow> ValidationResult" where
  "validate eng fieldValue =
     (let v = trim fieldValue in
      if length v = 0 \<and> enableEmptyFieldOptimization (config eng)
      then createResult False [''Field cannot be empty'']
      else
        (let rulesToExecute =
               (if enableEmptyFieldOptimization (config eng)
                then getExcluding (rules eng) [''not-empty'']
                else getAll (rules eng))
         in case executeRules v rulesToExecute of
              None \<Rightarrow> createResult False [''Validation error occurred'']
            | Some errs \<Rightarrow> createResult (length errs = 0) errs))"


section \<open>The DOM as the managers read it\<close>

text \<open>
  DOM nodes are references; what the code reads from them is a function of the
  reference in a snapshot of the page: the \<open>:scope > div\<close> children of the element found
  by \<open>SECTION_SELECTOR\<close> (or \<open>None\<close> when \<open>document.querySelector\<close> finds nothing), the
  results of \<open>querySelectorAll\<close> for the two field selectors, and the properties of an
  element that the managers read.
\<close>

type_synonym node = nat

record dom =
  section_divs :: "node list option"
  children_length :: "node \<Rightarrow> nat"
  offsetHeight :: "node \<Rightarrow> nat"
  query_FIELD_SELECTOR :: "node \<Rightarrow> node list"
  query_FIELD_SELECTOR_FALLBACK :: "node \<Rightarrow> node list"
  el_id :: "node \<Rightarrow> string"
  el_value :: "node \<Rightarrow> jsstring"
  el_offsetParent_null :: "node \<Rightarrow> bool"

record ValidatorConfig =
  pollInterval :: int
  minFieldsForProcess :: int
  autoValidate :: bool
  enableKeyboardShortcut :: bool
  maxRetries_cfg :: int
  debounceDelay :: int


section \<open>FieldManager\<close>

record FieldData =
  element :: node
  fd_isValid :: "bool option"
  fd_errors :: "string list"
  fd_lastValidated :: int

text \<open>
  The two \<open>Map\<close>s are association lists in insertion order (\<^const>\<open>AList.update\<close>
  overwrites in place or appends, as \<open>Map.prototype.set\<close> does). \<open>intersectionObserver\<close>
  holds the observed targets (\<open>None\<close> once disconnected), \<open>validateHandlers\<close> the elements
  whose \<open>_iicsValidateHandler\<close> is set, \<open>pendingDebounce\<close> the debouncer keys with a
  pending timer.
\<close>

record FieldManager =
  registeredFields :: "(string \<times> FieldData) list"
  lastValues :: "(string \<times> jsstring) list"
  intersectionObserver :: "node list option"
  validateHandlers :: "node list"
  pendingDebounce :: "string list"

definition newFieldManager :: FieldManager where
  "newFieldManager =
     \<lparr>registeredFields = [], lastValues = [], intersectionObserver = Some [],
      validateHandlers = [], pendingDebounce = []\<rparr>"

text \<open>The registrations and unregistrations a call performs (its \<open>logger.debug\<close> lines).\<close>

datatype fm_event = Registered string | Unregistered string

definition hasField :: "FieldManager \<Rightarrow> string \<Rightarrow> bool" where
  "hasField fm fieldId = (fieldId \<in> fst ` set (registeredFields fm))"

definition getField :: "FieldManager \<Rightarrow> string \<Rightarrow> FieldData option" where
  "getField fm fieldId = map_of (registeredFields fm) fieldId"

definition getFieldCount :: "FieldManager \<Rightarrow> nat" where
  "getFieldCount fm = length (registeredFields fm)"

text \<open>\<open>Partial<Omit<FieldData, "element">>\<close>: a key that is absent is \<open>None\<close>.\<close>

record FieldUpdates =
  upd_isValid :: "bool option option"
  upd_errors :: "string list option"
  upd_lastValidated :: "int option"

text \<open>\<open>Object.assign(fieldData, updates)\<close>\<close>

definition assign :: "FieldData \<Rightarrow> FieldUpdates \<Rightarrow> FieldData" where
  "assign fd u =
     fd\<lparr>fd_isValid := (case upd_isValid u of None \<Rightarrow> fd_isValid fd | Some b \<Rightarrow> b),
        fd_errors := (case upd_errors u of None \<Rightarrow> fd_errors fd | Some e \<Rightarrow> e),
        fd_lastValidated :=
          (case upd_lastValidated u of None \<Rightarrow> fd_lastValidated fd | Some t \<Rightarrow> t)\<rparr>"

definition updateFieldData :: "FieldManager \<Rightarrow> string \<Rightarrow> FieldUpdates \<Rightarrow> FieldManager" where
  "updateFieldData fm fieldId updates =
     (case getField fm fieldId of
        None \<Rightarrow> fm
      | Some fieldData \<Rightarrow>
          fm\<lparr>registeredFields :=
               AList.update fieldId (assign fieldData updates) (registeredFields fm)\<rparr>)"

text \<open>
  \<open>hasFieldChanged\<close>: \<open>this.lastValues.get(fieldId) || ""\<close> is the empty string for a
  missing and for an empty snapshot.
\<close>

definition hasFieldChanged :: "dom \<Rightarrow> FieldManager \<Rightarrow> string \<Rightarrow> bool \<times> FieldManager" where
  "hasFieldChanged d fm fieldId =
     (case getField fm fieldId of
        None \<Rightarrow> (False, fm)
      | Some fieldData \<Rightarrow>
          (let currentValue = el_value d (element fieldData);
               lastValue = (case map_of (lastValues fm) fieldId of
                              None \<Rightarrow> []
                            | Some v \<Rightarrow> (if v = [] then [] else v))
           in if currentValue \<noteq> lastValue
              then (True, fm\<lparr>lastValues := AList.update fieldId currentValue (lastValues fm)\<rparr>)
              else (False, fm)))"

definition registerField ::
  "ValidatorConfig \<Rightarrow> dom \<Rightarrow> node \<Rightarrow> FieldManager \<Rightarrow> FieldManager" where
  "registerField cfg d field fm =
     fm\<lparr>registeredFields :=
          AList.update (el_id d field)
            \<lparr>element = field, fd_isValid = None, fd_errors = [], fd_lastValidated = 0\<rparr>
            (registeredFields fm),
        validateHandlers :=
          (if autoValidate cfg then List.insert field (validateHandlers fm)
           else validateHandlers fm)\<rparr>"

definition unregisterField :: "FieldManager \<Rightarrow> string \<Rightarrow> FieldManager \<times> fm_event list" where
  "unregisterField fm fieldId =
     (case getField fm fieldId of
        None \<Rightarrow> (fm, [])
      | Some fieldData \<Rightarrow>
          (fm\<lparr>validateHandlers := removeAll (element fieldData) (validateHandlers fm),
              pendingDebounce := removeAll (''validate-'' @ fieldId) (pendingDebounce fm),
              intersectionObserver :=
                map_option (removeAll (element fieldData)) (intersectionObserver fm),
              registeredFields := AList.delete fieldId (registeredFields fm)\<rparr>,
           [Unregistered fieldId]))"

text \<open>The body of the \<open>fields.forEach\<close> of \<open>scanAndRegister\<close>, for one field.\<close>

definition scanField ::
  "ValidatorConfig \<Rightarrow> dom \<Rightarrow> FieldManager \<times> fm_event list \<Rightarrow> node \<Rightarrow>
   FieldManager \<times> fm_event list" where
  "scanField cfg d st field =
     (let fm = fst st in
      if \<not> hasField fm (el_id d field)
      then
        (let fm1 = registerField cfg d field fm;
             fm2 = fm1\<lparr>lastValues :=
                         AList.update (el_id d field) (el_value d field) (lastValues fm1)\<rparr>;
             fm3 = (case intersectionObserver fm2 of
                      Some obs \<Rightarrow>
                        (if el_offsetParent_null d field
                         then fm2\<lparr>intersectionObserver := Some (List.insert field obs)\<rparr>
                         else fm2)
                    | None \<Rightarrow> fm2)
         in (fm3, snd st @ [Registered (el_id d field)]))
      else st)"

definition unregisterStep ::
  "FieldManager \<times> fm_event list \<Rightarrow> string \<Rightarrow> FieldManager \<times> fm_event list" where
  "unregisterStep st fieldId =
     (let r = unregisterField (fst st) fieldId in (fst r, snd st @ snd r))"

definition scanAndRegister ::
  "ValidatorConfig \<Rightarrow> dom \<Rightarrow> node \<Rightarrow> FieldManager \<Rightarrow> FieldManager \<times> fm_event list" where
  "scanAndRegister cfg d container fm =
     (let primary = query_FIELD_SELECTOR d container;
          found = (if length primary = 0 then query_FIELD_SELECTOR_FALLBACK d container
                   else primary);
          st1 = foldl (scanField cfg d) (fm, []) found;
          currentFieldIds = map (el_id d) found;
          fieldsToRemove =
            filter (\<lambda>fid. fid \<notin> set currentFieldIds) (map fst (registeredFields (fst st1)))
      in foldl unregisterStep st1 fieldsToRemove)"

definition getFieldsNeedingValidation ::
  "dom \<Rightarrow> int \<Rightarrow> FieldManager \<Rightarrow> int \<Rightarrow> FieldData list" where
  "getFieldsNeedingValidation d now fm maxAge =
     filter (\<lambda>fieldData. trim (el_value d (element fieldData)) \<noteq> [] \<and>
                         now - fd_lastValidated fieldData > maxAge)
       (map snd (registeredFields fm))"

definition cleanup :: "FieldManager \<Rightarrow> FieldManager \<times> fm_event list" where
  "cleanup fm = foldl unregisterStep (fm, []) (map fst (registeredFields fm))"


section \<open>StatsManager\<close>

record ValidationStats =
  totalFields :: nat
  validFields :: nat
  invalidFields :: nat
  lastValidated :: "int option"

definition reset :: ValidationStats where
  "reset = \<lparr>totalFields = 0, validFields = 0, invalidFields = 0, lastValidated = None\<rparr>"

definition incrementValid :: "ValidationStats \<Rightarrow> ValidationStats" where
  "incrementValid st = st\<lparr>validFields := validFields st + 1\<rparr>"

definition incrementInvalid :: "ValidationStats \<Rightarrow> ValidationStats" where
  "incrementInvalid st = st\<lparr>invalidFields := invalidFields st + 1\<rparr>"

definition setTotal :: "ValidationStats \<Rightarrow> nat \<Rightarrow> ValidationStats" where
  "setTotal st n = st\<lparr>totalFields := n\<rparr>"

definition markValidated :: "int \<Rightarrow> ValidationStats \<Rightarrow> ValidationStats" where
  "markValidated now st = st\<lparr>lastValidated := Some now\<rparr>"

definition updateFromFields :: "int \<Rightarrow> (string \<times> FieldData) list \<Rightarrow> ValidationStats" where
  "updateFromFields now fieldMap =
     \<lparr>totalFields = length fieldMap,
      validFields = length (filter (\<lambda>fd. fd_isValid fd = Some True) (map snd fieldMap)),
      invalidFields = length (filter (\<lambda>fd. fd_isValid fd = Some False) (map snd fieldMap)),
      lastValidated = Some now\<rparr>"


section \<open>ValidationOrchestrator\<close>

text \<open>
  Calls into the presentation layer (toast, \<open>UIManager\<close>, the summary toast of
  \<open>StatsManager.showSummary\<close>) are recorded in the order the code issues or schedules
  them. \<open>now\<close> is the reading of \<open>Date.now()\<close>.
\<close>

datatype ui_event =
    Toast string
  | UpdateFieldHighlight node bool "string list"
  | ClearFieldHighlight node
  | UpdateStatsPanel ValidationStats
  | ShowStatsPanel
  | HideStatsPanel
  | ShowSummary ValidationStats

record Orchestrator =
  fieldManager :: FieldManager
  validatorEngine :: ValidatorEngine
  statsManager :: ValidationStats
  presentation :: "ui_event list"

definition outcome :: "int \<Rightarrow> ValidationResult \<Rightarrow> FieldUpdates" where
  "outcome now result =
     \<lparr>upd_isValid = Some (Some (isValid result)), upd_errors = Some (errors result),
      upd_lastValidated = Some now\<rparr>"

definition validateSingleField ::
  "dom \<Rightarrow> int \<Rightarrow> Orchestrator \<Rightarrow> node \<Rightarrow> bool \<Rightarrow> bool \<times> Orchestrator" where
  "validateSingleField d now orch field silent =
     (let result = validate (validatorEngine orch) (el_value d field);
          fm = updateFieldData (fieldManager orch) (el_id d field) (outcome now result);
          st = (if \<not> silent
                then (if isValid result then incrementValid (statsManager orch)
                      else incrementInvalid (statsManager orch))
                else statsManager orch)
      in (isValid result,
          orch\<lparr>fieldManager := fm, statsManager := st,
               presentation := presentation orch @
                 [UpdateFieldHighlight field (isValid result) (errors result)]\<rparr>))"

definition batchSize :: nat where
  "batchSize = 20"

definition batchEnd :: "FieldData list \<Rightarrow> nat \<Rightarrow> nat" where
  "batchEnd fs currentBatch = min (currentBatch * batchSize + batchSize) (length fs)"

text \<open>
  The body of the \<open>for\<close> loop of \<open>validateBatch\<close> at index \<open>i\<close> (always in range, so
  \<open>fields[i]\<close> is defined); the second component collects \<open>updates\<close>.
\<close>

definition validateAt ::
  "dom \<Rightarrow> int \<Rightarrow> FieldData list \<Rightarrow> Orchestrator \<times> ui_event list \<Rightarrow> nat \<Rightarrow>
   Orchestrator \<times> ui_event list" where
  "validateAt d now fs st i =
     (let orch = fst st;
          fieldData = fs ! i;
          result = validate (validatorEngine orch) (el_value d (element fieldData));
          fm = updateFieldData (fieldManager orch) (el_id d (element fieldData))
                 (outcome now result);
          stats = (if \<not> isValid result then incrementValid (statsManager orch)
                   else incrementInvalid (statsManager orch))
      in (orch\<lparr>fieldManager := fm, statsManager := stats\<rparr>,
          snd st @ [UpdateFieldHighlight (element fieldData) (isValid result) (errors result)]))"

definition runBatch ::
  "dom \<Rightarrow> int \<Rightarrow> FieldData list \<Rightarrow> nat \<Rightarrow> Orchestrator \<Rightarrow> Orchestrator" where
  "runBatch d now fs currentBatch orch =
     (let st = foldl (validateAt d now fs) (orch, [])
                 [currentBatch * batchSize ..< batchEnd fs currentBatch]
      in (fst st)\<lparr>presentation := presentation (fst st) @ snd st\<rparr>)"

definition onValidationComplete :: "int \<Rightarrow> Orchestrator \<Rightarrow> Orchestrator" where
  "onValidationComplete now orch =
     (let stats = markValidated now (statsManager orch)
      in orch\<lparr>statsManager := stats,
              presentation := presentation orch @
                [UpdateStatsPanel stats, ShowStatsPanel, ShowSummary stats]\<rparr>)"

text \<open>
  \<open>validateBatch\<close>, the closure that \<open>validateInBatches\<close> runs once and that re-queues
  itself with \<open>requestAnimationFrame\<close> while fields remain; the frames are run back to
  back.
\<close>

function validateBatch ::
  "dom \<Rightarrow> int \<Rightarrow> FieldData list \<Rightarrow> nat \<Rightarrow> Orchestrator \<Rightarrow> Orchestrator" where
  "validateBatch d now fs currentBatch orch =
     (if batchEnd fs currentBatch < length fs
      then validateBatch d now fs (currentBatch + 1) (runBatch d now fs currentBatch orch)
      else onValidationComplete now (runBatch d now fs currentBatch orch))"
  by pat_completeness auto
termination
  by (relation "measure (\<lambda>(d, now, fs, currentBatch, orch). length fs - currentBatch * batchSize)")
     (auto simp: batchEnd_def batchSize_def)

definition validateInBatches ::
  "dom \<Rightarrow> int \<Rightarrow> FieldData list \<Rightarrow> Orchestrator \<Rightarrow> Orchestrator" where
  "validateInBatches d now fs orch = validateBatch d now fs 0 orch"

definition runFullValidation :: "dom \<Rightarrow> int \<Rightarrow> Orchestrator \<Rightarrow> Orchestrator" where
  "runFullValidation d now orch =
     (let fs = map snd (registeredFields (fieldManager orch)) in
      if length fs = 0
      then orch\<lparr>presentation := presentation orch @ [Toast ''No fields found to validate'']\<rparr>
      else validateInBatches d now fs (orch\<lparr>statsManager := setTotal reset (length fs)\<rparr>))"


section \<open>ContainerDetector\<close>

record ContainerDetector =
  activeContainer :: "node option"
  isProcessDesigner :: bool
  lastScanTime :: int
  retryCount :: nat

definition newContainerDetector :: ContainerDetector where
  "newContainerDetector =
     \<lparr>activeContainer = None, isProcessDesigner = False, lastScanTime = 0, retryCount = 0\<rparr>"

definition minScanInterval :: int where
  "minScanInterval = 500"

definition maxRetries :: nat where
  "maxRetries = 3"

text \<open>
  What a scan sends out: the two constructor callbacks, and the \<open>setTimeout\<close> that asks
  for another scan a second later.
\<close>

datatype notification = ContainerChange "node option" | ContextChange bool | RetryScheduled

definition setProcessDesignerState ::
  "ContainerDetector \<Rightarrow> bool \<Rightarrow> ContainerDetector \<times> notification list" where
  "setProcessDesignerState det state =
     (if isProcessDesigner det \<noteq> state
      then (det\<lparr>isProcessDesigner := state\<rparr>, [ContextChange state])
      else (det, []))"

definition detectContext ::
  "ValidatorConfig \<Rightarrow> dom \<Rightarrow> ContainerDetector \<Rightarrow> ContainerDetector \<times> notification list" where
  "detectContext cfg d det =
     (case activeContainer det of
        None \<Rightarrow> setProcessDesignerState det False
      | Some container \<Rightarrow>
          (let fieldCount = length (query_FIELD_SELECTOR d container);
               isPD = (int fieldCount \<ge> minFieldsForProcess cfg)
           in if isPD \<noteq> isProcessDesigner det then setProcessDesignerState det isPD
              else (det, [])))"

definition setActiveContainer ::
  "ValidatorConfig \<Rightarrow> dom \<Rightarrow> ContainerDetector \<Rightarrow> node option \<Rightarrow>
   ContainerDetector \<times> notification list" where
  "setActiveContainer cfg d det container =
     (let changed = (activeContainer det \<noteq> container);
          det1 = det\<lparr>activeContainer := container\<rparr>
      in if changed
         then (let r = detectContext cfg d det1 in (fst r, snd r @ [ContainerChange container]))
         else (det1, []))"

definition updateActiveContainer ::
  "ValidatorConfig \<Rightarrow> dom \<Rightarrow> int \<Rightarrow> ContainerDetector \<Rightarrow>
   ContainerDetector \<times> notification list" where
  "updateActiveContainer cfg d now det =
     (if now - lastScanTime det < minScanInterval then (det, [])
      else
        (case section_divs d of
           None \<Rightarrow>
             (let retry = (retryCount det < maxRetries);
                  det1 = (if retry then det\<lparr>retryCount := retryCount det + 1\<rparr> else det);
                  r = setActiveContainer cfg d det1 None
              in (fst r, (if retry then [RetryScheduled] else []) @ snd r))
         | Some divs \<Rightarrow>
             (case find (\<lambda>dv. children_length d dv > 0 \<and> offsetHeight d dv > 0) divs of
                Some dv \<Rightarrow>
                  (if activeContainer det \<noteq> Some dv
                   then setActiveContainer cfg d det (Some dv)
                   else (det, []))
              | None \<Rightarrow> setActiveContainer cfg d (det\<lparr>retryCount := 0\<rparr>) None)))"

definition forceUpdate ::
  "ValidatorConfig \<Rightarrow> dom \<Rightarrow> int \<Rightarrow> ContainerDetector \<Rightarrow>
   ContainerDetector \<times> notification list" where
  "forceUpdate cfg d now det = updateActiveContainer cfg d now (det\<lparr>lastScanTime := 0\<rparr>)"


section \<open>Notions used in the statements\<close>

text \<open>
  The rule order as the specification words it: rules are kept in insertion order, an
  add of a known name overwrites that rule in place, and evaluation goes by ascending
  priority with ties broken by insertion order.
\<close>

fun spec_register :: "ValidationRule list \<Rightarrow> rule_op \<Rightarrow> ValidationRule list" where
  "spec_register rs (Add rule) =
     (case findIndex (\<lambda>r. name r = name rule) rs of
        Some i \<Rightarrow> rs[i := rule]
      | None \<Rightarrow> rs @ [rule])"
| "spec_register rs (Remove n) = snd (remove_rule rs n)"

definition spec_order :: "rule_op list \<Rightarrow> ValidationRule list" where
  "spec_order ops = sort_key priorityOf (foldl spec_register defaultRules ops)"

definition spec_evaluate :: "jsstring \<Rightarrow> rule_op list \<Rightarrow> string list" where
  "spec_evaluate v ops = map message (filter (\<lambda>r. check r v = Some False) (spec_order ops))"

text \<open>A history in which no add overwrites a rule with a rule of another priority.\<close>

fun keeps_priorities :: "ValidationRule list \<Rightarrow> rule_op list \<Rightarrow> bool" where
  "keeps_priorities rs [] = True"
| "keeps_priorities rs (Add rule # ops) =
     ((case findIndex (\<lambda>r. name r = name rule) rs of
         Some i \<Rightarrow> priorityOf (rs ! i) = priorityOf rule
       | None \<Rightarrow> True) \<and> keeps_priorities (add_rule rs rule) ops)"
| "keeps_priorities rs (Remove n # ops) = keeps_priorities (snd (remove_rule rs n)) ops"

text \<open>Overwriting by name, as a map over the rules.\<close>

definition overwrite :: "ValidationRule \<Rightarrow> ValidationRule \<Rightarrow> ValidationRule" where
  "overwrite r x = (if name x = name r then r else x)"

text \<open>The classification \<open>detectContext\<close> computes for a container.\<close>

definition classify :: "ValidatorConfig \<Rightarrow> dom \<Rightarrow> node option \<Rightarrow> bool" where
  "classify cfg d container =
     (case container of
        None \<Rightarrow> False
      | Some c \<Rightarrow> int (length (query_FIELD_SELECTOR d c)) \<ge> minFieldsForProcess cfg)"


text \<open>The identifiers the registry tracks.\<close>

abbreviation keys :: "FieldManager \<Rightarrow> string set" where
  "keys fm \<equiv> fst ` set (registeredFields fm)"

text \<open>The fields a scan of a container finds: the primary selector, else the fallback.\<close>

definition foundFields :: "dom \<Rightarrow> node \<Rightarrow> node list" where
  "foundFields d container =
     (if length (query_FIELD_SELECTOR d container) = 0
      then query_FIELD_SELECTOR_FALLBACK d container
      else query_FIELD_SELECTOR d container)"


section \<open>Sample inputs\<close>

text \<open>
  A page whose section has one visible container (node 1) with two fields: node 10,
  id \<open>ae_sf_a\<close>, value \<open>Account_ID_123\<close>, and node 11, id \<open>ae_sf_b\<close>, value \<open>123Field\<close>.
\<close>

definition sampleDom :: dom where
  "sampleDom =
     \<lparr>section_divs = Some [1], children_length = (\<lambda>_. 2), offsetHeight = (\<lambda>_. 10),
      query_FIELD_SELECTOR = (\<lambda>c. if c = 1 then [10, 11] else []),
      query_FIELD_SELECTOR_FALLBACK = (\<lambda>_. []),
      el_id = (\<lambda>n. if n = 10 then ''ae_sf_a'' else ''ae_sf_b''),
      el_value = (\<lambda>n. if n = 10 then js ''Account_ID_123'' else js ''123Field''),
      el_offsetParent_null = (\<lambda>_. False)\<rparr>"

text \<open>The configuration of \<open>config-defaults\<close> as far as the managers read it.\<close>

definition sampleConfig :: ValidatorConfig where
  "sampleConfig =
     \<lparr>pollInterval = 1000, minFieldsForProcess = 5, autoValidate = True,
      enableKeyboardShortcut = True, maxRetries_cfg = 3, debounceDelay = 300\<rparr>"

text \<open>The same page after the container has grown to six fields.\<close>

definition grownDom :: dom where
  "grownDom = sampleDom\<lparr>query_FIELD_SELECTOR := (\<lambda>c. if c = 1 then [10, 11, 12, 13, 14, 15] else [])\<rparr>"

text \<open>A registry that tracks \<open>ae_sf_a\<close> (node 10) with the snapshot \<open>Account\<close>.\<close>

definition sampleFieldManager :: FieldManager where
  "sampleFieldManager =
     \<lparr>registeredFields =
        [(''ae_sf_a'', \<lparr>element = 10, fd_isValid = None, fd_errors = [], fd_lastValidated = 0\<rparr>)],
      lastValues = [(''ae_sf_a'', js ''Account'')],
      intersectionObserver = Some [], validateHandlers = [10], pendingDebounce = []\<rparr>"


text \<open>An orchestrator over that registry, with the default engine and fresh statistics.\<close>

definition sampleOrchestrator :: Orchestrator where
  "sampleOrchestrator =
     \<lparr>fieldManager = sampleFieldManager,
      validatorEngine = newValidatorEngine defaultEngineConfig,
      statsManager = reset, presentation = []\<rparr>"


text \<open>
  A history that re-registers the no-spaces rule twice: first with priority 1, then with
  priority 2, the priority of starts-with-capital.
\<close>

definition noSpacesWithPriority :: "int \<Rightarrow> ValidationRule" where
  "noSpacesWithPriority p =
     \<lparr>name = ''no-spaces'', check = (\<lambda>v. Some (\<not> hasWhiteSpace v)),
      message = ''No spaces allowed'', priority = Some p\<rparr>"

definition reprioritised :: "rule_op list" where
  "reprioritised = [Add (noSpacesWithPriority 1), Add (noSpacesWithPriority 2)]"

text \<open>A history that adds a rule of a new name and removes a default rule.\<close>

definition extended :: "rule_op list" where
  "extended =
     [Add \<lparr>name = ''no-lowercase-start'', check = (\<lambda>v. Some (\<not> (case v of [] \<Rightarrow> False | c # _ \<Rightarrow> isLower c))),
           message = ''Cannot start with lowercase letter'', priority = Some 2\<rparr>,
      Remove ''min-length'']"


section \<open>Evaluation\<close>

lemmas string_eval =
  js_def trim_def trimStart_def trimEnd_def isWhiteSpace_def startsWithCapital_def
  hasWhiteSpace_def alphanumericUnderscore_def endsWithUnderscore_def startsWithDigit_def
  isUpper_def isLower_def isDigit_def isUnderscore_def

lemma initializeDefaultRules_eq: "initializeDefaultRules = defaultRules"
  by (simp add: initializeDefaultRules_def sortByPriority_def defaultRules_def priorityOf_def)

lemmas engine_eval =
  validate_def newValidatorEngine_def initializeDefaultRules_eq defaultRules_def
  defaultEngineConfig_def getExcluding_def getAll_def createResult_def

lemmas registry_eval =
  apply_ops_def add_rule_def remove_rule_def sortByPriority_def priorityOf_def
  initializeDefaultRules_eq defaultRules_def spec_order_def spec_evaluate_def
  reprioritised_def noSpacesWithPriority_def extended_def

lemmas detector_eval =
  updateActiveContainer_def setActiveContainer_def detectContext_def setProcessDesignerState_def
  forceUpdate_def newContainerDetector_def minScanInterval_def maxRetries_def classify_def
  sampleDom_def grownDom_def sampleConfig_def

lemmas orch_eval =
  runFullValidation_def validateInBatches_def validateBatch.simps runBatch_def validateAt_def
  onValidationComplete_def batchEnd_def batchSize_def outcome_def validateSingleField_def
  reset_def setTotal_def incrementValid_def incrementInvalid_def markValidated_def
  sampleOrchestrator_def

lemmas fm_eval =
  scanAndRegister_def scanField_def registerField_def unregisterStep_def unregisterField_def
  hasField_def getField_def newFieldManager_def updateFieldData_def hasFieldChanged_def
  assign_def sampleDom_def sampleConfig_def sampleFieldManager_def


section \<open>The rule registry keeps names unique\<close>

lemma findIndex_None: "findIndex p xs = None \<longleftrightarrow> (\<forall>x \<in> set xs. \<not> p x)"
  by (induction xs) (auto split: option.splits)

lemma findIndex_Some: "findIndex p xs = Some i \<Longrightarrow> i < length xs \<and> p (xs ! i)"
  by (induction xs arbitrary: i) (auto split: option.splits if_splits)

lemma distinct_names_sort:
  "distinct (map name (sortByPriority rs)) = distinct (map name rs)"
  by (simp add: sortByPriority_def distinct_map)

lemma distinct_names_add:
  assumes "distinct (map name rs)"
  shows "distinct (map name (add_rule rs r))"
proof (cases "findIndex (\<lambda>x. name x = name r) rs")
  case None
  then have "name r \<notin> set (map name rs)" by (auto simp: findIndex_None)
  with assms None show ?thesis by (simp add: add_rule_def distinct_names_sort)
next
  case (Some i)
  then have "i < length rs" "name (rs ! i) = name r" using findIndex_Some by fastforce+
  then have "map name (rs[i := r]) = map name rs"
    by (simp add: map_update list_update_same_conv)
  with assms Some show ?thesis by (simp add: add_rule_def distinct_names_sort)
qed

lemma distinct_names_remove:
  assumes "distinct (map name rs)"
  shows "distinct (map name (snd (remove_rule rs n)))"
proof (cases "findIndex (\<lambda>x. name x = n) rs")
  case None
  with assms show ?thesis by (simp add: remove_rule_def)
next
  case (Some i)
  have "distinct (take i (map name rs) @ drop (Suc i) (map name rs))"
    using assms set_take_disj_set_drop_if_distinct[of "map name rs" i "Suc i"]
    by simp
  with Some show ?thesis by (simp add: remove_rule_def take_map drop_map)
qed

lemma distinct_names_apply_op:
  "distinct (map name rs) \<Longrightarrow> distinct (map name (apply_op rs x))"
  by (cases x) (simp_all add: distinct_names_add distinct_names_remove)

lemma distinct_names_foldl:
  "distinct (map name rs) \<Longrightarrow> distinct (map name (foldl apply_op rs ops))"
  by (induction ops arbitrary: rs) (simp_all add: distinct_names_apply_op)

lemma distinct_names_default: "distinct (map name initializeDefaultRules)"
  by (simp add: initializeDefaultRules_eq defaultRules_def)

text \<open>
  C8. Starting from the default rule set, after any sequence of add
  (insert or overwrite by name) and remove operations, no two rules of the registry
  share a name.
\<close>

theorem rule_names_unique:
  "distinct (map name (apply_ops ops initializeDefaultRules))"
  unfolding apply_ops_def by (rule distinct_names_foldl [OF distinct_names_default])

theorem rule_names_unique_witness:
  "distinct (map name (apply_ops
     [Add \<lparr>name = ''no-spaces'', check = (\<lambda>v. Some True), message = ''x'', priority = None\<rparr>,
      Remove ''min-length''] initializeDefaultRules))"
  by (rule rule_names_unique)


section \<open>The default rule set on sample values\<close>

text \<open>
  C2, as stated, fails: the value \<open>123Field\<close> does not yield the single failure
  \<open>Cannot start with number\<close>, because the starts-with-capital rule rejects the leading
  digit as well.
\<close>

theorem leading_digit_not_single_failure:
  "executeRules (js ''123Field'') initializeDefaultRules \<noteq> Some [''Cannot start with number'']
   \<and> errors (validate (newValidatorEngine defaultEngineConfig) (js ''123Field''))
       \<noteq> [''Cannot start with number'']"
  by (simp add: engine_eval string_eval)

text \<open>
  C2, amended. Evaluating \<open>123Field\<close> against the default rule set yields exactly two
  failure messages, in this order: \<open>Must start with capital letter\<close> and
  \<open>Cannot start with number\<close>; the rules whose predicate is false are exactly
  starts-with-capital and no-leading-number, and the other seven pass.
\<close>

theorem leading_digit_two_failures:
  "executeRules (js ''123Field'') initializeDefaultRules
     = Some [''Must start with capital letter'', ''Cannot start with number'']
   \<and> validate (newValidatorEngine defaultEngineConfig) (js ''123Field'')
     = \<lparr>isValid = False,
        errors = [''Must start with capital letter'', ''Cannot start with number'']\<rparr>
   \<and> map name (filter (\<lambda>r. check r (js ''123Field'') \<noteq> Some True) initializeDefaultRules)
     = [''starts-with-capital'', ''no-leading-number'']
   \<and> length initializeDefaultRules = 9"
  by (simp add: engine_eval string_eval)

text \<open>
  C3, as stated, fails: on the empty string the result with the empty-field optimization
  differs from the result without it.
\<close>

theorem empty_optimization_not_equivalent:
  "validate (newValidatorEngine (defaultEngineConfig\<lparr>enableEmptyFieldOptimization := True\<rparr>)) []
   \<noteq> validate (newValidatorEngine (defaultEngineConfig\<lparr>enableEmptyFieldOptimization := False\<rparr>)) []"
  by (simp add: engine_eval string_eval)

text \<open>
  C3, amended. For the empty string both settings give the validity flag false, but the
  message lists differ: with the optimization the single message
  \<open>Field cannot be empty\<close>, without it the messages of the four default rules the empty
  string fails (not-empty, starts-with-capital, alphanumeric-underscore, min-length), in
  priority order.
\<close>

theorem empty_optimization_results:
  "validate (newValidatorEngine (defaultEngineConfig\<lparr>enableEmptyFieldOptimization := True\<rparr>)) []
     = \<lparr>isValid = False, errors = [''Field cannot be empty'']\<rparr>
   \<and> validate (newValidatorEngine (defaultEngineConfig\<lparr>enableEmptyFieldOptimization := False\<rparr>)) []
     = \<lparr>isValid = False,
        errors = [''Field cannot be empty'', ''Must start with capital letter'',
                  ''Only letters, numbers, and underscore allowed'',
                  ''Must be at least 3 characters'']\<rparr>"
  by (simp add: engine_eval string_eval)


section \<open>Validation works on the trimmed value\<close>

lemma trimStart_trim: "trimStart (trimEnd (trimStart s)) = trimEnd (trimStart s)"
proof (cases "trimEnd (trimStart s)")
  case Nil
  then show ?thesis by (simp add: trimStart_def)
next
  case (Cons c cs)
  let ?t = "dropWhile isWhiteSpace s"
  have "rev (dropWhile isWhiteSpace (rev ?t)) = c # cs"
    using Cons by (simp add: trimEnd_def trimStart_def)
  then have "dropWhile isWhiteSpace (rev ?t) = rev cs @ [c]"
    by (metis rev.simps(2) rev_rev_ident)
  moreover have "rev ?t = takeWhile isWhiteSpace (rev ?t) @ dropWhile isWhiteSpace (rev ?t)"
    by simp
  ultimately have "rev ?t = takeWhile isWhiteSpace (rev ?t) @ rev cs @ [c]" by simp
  then have "?t = c # cs @ rev (takeWhile isWhiteSpace (rev ?t))"
    by (metis append_Cons append_Nil rev.simps(2) rev_append rev_rev_ident rev_swap append_assoc)
  then have "hd ?t = c" "?t \<noteq> []" by (metis list.sel(1), metis list.discI)
  then have "\<not> isWhiteSpace c" using hd_dropWhile by metis
  then show ?thesis using Cons by (simp add: trimStart_def)
qed

lemma trimEnd_idem: "trimEnd (trimEnd s) = trimEnd s"
proof -
  have "dropWhile isWhiteSpace (dropWhile isWhiteSpace (rev s)) = dropWhile isWhiteSpace (rev s)"
    by (simp add: dropWhile_idem)
  then show ?thesis by (simp add: trimEnd_def)
qed

lemma trim_idem: "trim (trim s) = trim s"
  by (simp add: trim_def trimStart_trim trimEnd_idem)

lemma validate_trim: "validate eng (trim v) = validate eng v"
  by (simp add: validate_def trim_idem)

lemma dropWhile_all: "list_all P xs \<Longrightarrow> dropWhile P xs = []"
  by (induction xs) auto

lemma trim_whitespace_only:
  assumes "list_all isWhiteSpace v"
  shows "trim v = []"
proof -
  from assms have dw: "dropWhile isWhiteSpace v = []" by (rule dropWhile_all)
  show ?thesis unfolding trim_def trimStart_def trimEnd_def dw by simp
qed

lemma validate_whitespace_only:
  "list_all isWhiteSpace v \<Longrightarrow> enableEmptyFieldOptimization (config eng) \<Longrightarrow>
   validate eng v = \<lparr>isValid = False, errors = [''Field cannot be empty'']\<rparr>"
  by (simp add: validate_def trim_whitespace_only createResult_def)

lemma executeRules_message:
  "executeRules v rs = Some errs \<Longrightarrow> m \<in> set errs \<Longrightarrow>
   \<exists>r \<in> set rs. message r = m \<and> check r v = Some False"
proof (induction rs arbitrary: errs)
  case Nil
  then show ?case by simp
next
  case (Cons r rs)
  then show ?case by (fastforce split: option.splits if_splits)
qed

lemma no_spaces_only_rule:
  "r \<in> set defaultRules \<Longrightarrow> message r = ''No spaces allowed'' \<Longrightarrow>
   check r v = Some (\<not> hasWhiteSpace v)"
  by (auto simp: defaultRules_def)

lemma no_spaces_not_reported:
  assumes "\<not> hasWhiteSpace (trim v)"
  shows "''No spaces allowed'' \<notin> set (errors (validate (newValidatorEngine cfg) v))"
proof
  let ?eng = "newValidatorEngine cfg"
  assume m: "''No spaces allowed'' \<in> set (errors (validate ?eng v))"
  define rs where "rs = (if enableEmptyFieldOptimization cfg
      then getExcluding defaultRules [''not-empty''] else getAll defaultRules)"
  have sub: "set rs \<subseteq> set defaultRules"
    by (auto simp: rs_def getExcluding_def getAll_def)
  have "\<exists>errs. executeRules (trim v) rs = Some errs"
    by (auto simp: rs_def getExcluding_def getAll_def defaultRules_def)
  then obtain errs where errs: "executeRules (trim v) rs = Some errs" by blast
  have "errors (validate ?eng v) = [''Field cannot be empty''] \<or> errors (validate ?eng v) = errs"
    using errs
    by (auto simp: validate_def Let_def newValidatorEngine_def initializeDefaultRules_eq rs_def
                   createResult_def)
  with m have "''No spaces allowed'' \<in> set errs" by auto
  with errs obtain r where
    "r \<in> set rs" "message r = ''No spaces allowed''" "check r (trim v) = Some False"
    using executeRules_message by blast
  with sub assms show False using no_spaces_only_rule by fastforce
qed

text \<open>
  C10. Validation is performed on the trimmed field value: for every engine and every
  field value \<open>v\<close>, \<open>validate\<close> gives the same result for \<open>v\<close> and for \<open>trim v\<close>; a value
  of white space only is treated as empty, giving the single failure
  \<open>Field cannot be empty\<close> when the empty-field optimization is on (the default
  configuration); and with the default rules, a value whose trimmed form has no white
  space never gets the no-spaces message, whatever white space leads or trails it.
\<close>

theorem validate_uses_trimmed_value:
  "validate eng v = validate eng (trim v)
   \<and> (list_all isWhiteSpace v \<and> enableEmptyFieldOptimization (config eng) \<longrightarrow>
        validate eng v = \<lparr>isValid = False, errors = [''Field cannot be empty'']\<rparr>)
   \<and> (\<not> hasWhiteSpace (trim v) \<longrightarrow>
        ''No spaces allowed'' \<notin> set (errors (validate (newValidatorEngine cfg) v)))"
  by (simp add: validate_trim validate_whitespace_only no_spaces_not_reported)

theorem validate_uses_trimmed_value_witness:
  "list_all isWhiteSpace (js ''  '')
   \<and> enableEmptyFieldOptimization (config (newValidatorEngine defaultEngineConfig))
   \<and> validate (newValidatorEngine defaultEngineConfig) (js ''  '')
       = \<lparr>isValid = False, errors = [''Field cannot be empty'']\<rparr>
   \<and> hasWhiteSpace (js '' Account_ID_123  '')
   \<and> \<not> hasWhiteSpace (trim (js '' Account_ID_123  ''))
   \<and> ''No spaces allowed''
       \<notin> set (errors (validate (newValidatorEngine defaultEngineConfig) (js '' Account_ID_123  '')))
   \<and> validate (newValidatorEngine defaultEngineConfig) (js '' Account_ID_123  '')
       = validate (newValidatorEngine defaultEngineConfig) (trim (js '' Account_ID_123  ''))"
proof -
  let ?eng = "newValidatorEngine defaultEngineConfig"
  have h1: "list_all isWhiteSpace (js ''  '') \<and> enableEmptyFieldOptimization (config ?eng)"
    by (simp add: string_eval newValidatorEngine_def defaultEngineConfig_def)
  have h2: "hasWhiteSpace (js '' Account_ID_123  '')
            \<and> \<not> hasWhiteSpace (trim (js '' Account_ID_123  ''))"
    by (simp add: string_eval)
  show ?thesis
    using h1 h2
      validate_uses_trimmed_value [of ?eng "js ''  ''" defaultEngineConfig]
      validate_uses_trimmed_value [of ?eng "js '' Account_ID_123  ''" defaultEngineConfig]
    by blast
qed


section \<open>FieldManager: unknown ids, value changes, reconciliation\<close>

lemma getField_None_iff: "getField fm fid = None \<longleftrightarrow> \<not> hasField fm fid"
  by (simp add: getField_def hasField_def map_of_eq_None_iff)

text \<open>
  C9. For every identifier that is not in the registry, \<open>updateFieldData\<close> (recordOutcome)
  is a no-op: the function has no error path, and the manager, with every field record in
  it, is returned unchanged.
\<close>

theorem updateFieldData_unknown_noop:
  "\<not> hasField fm fieldId \<Longrightarrow> updateFieldData fm fieldId updates = fm"
  by (simp add: updateFieldData_def getField_None_iff [symmetric])

theorem updateFieldData_unknown_noop_witness:
  "\<not> hasField sampleFieldManager ''ae_sf_b''
   \<and> updateFieldData sampleFieldManager ''ae_sf_b''
       \<lparr>upd_isValid = Some (Some True), upd_errors = Some [], upd_lastValidated = Some 5\<rparr>
     = sampleFieldManager"
proof -
  have h: "\<not> hasField sampleFieldManager ''ae_sf_b''"
    by (simp add: hasField_def sampleFieldManager_def)
  from h updateFieldData_unknown_noop [OF h] show ?thesis by simp
qed

text \<open>
  C7. \<open>hasFieldChanged\<close> (valueChanged) returns true at most once per value transition:
  after a call that returned true, a second call on the same page, with the element's
  value as it was, returns false and changes nothing, because the first call stored the
  live value as the snapshot.
\<close>

theorem hasFieldChanged_once:
  assumes "hasFieldChanged d fm fieldId = (True, fm')"
  shows "hasFieldChanged d fm' fieldId = (False, fm')"
proof -
  from assms obtain fd where fd: "getField fm fieldId = Some fd"
    by (auto simp: hasFieldChanged_def split: option.splits)
  with assms have fm':
    "fm' = fm\<lparr>lastValues := AList.update fieldId (el_value d (element fd)) (lastValues fm)\<rparr>"
    by (auto simp: hasFieldChanged_def Let_def split: if_splits)
  have "getField fm' fieldId = Some fd" using fd by (simp add: fm' getField_def)
  moreover have "map_of (lastValues fm') fieldId = Some (el_value d (element fd))"
    by (simp add: fm' update_conv')
  ultimately show ?thesis by (simp add: hasFieldChanged_def)
qed

theorem hasFieldChanged_once_witness:
  "hasFieldChanged sampleDom sampleFieldManager ''ae_sf_a''
     = (True, sampleFieldManager\<lparr>lastValues := [(''ae_sf_a'', js ''Account_ID_123'')]\<rparr>)
   \<and> hasFieldChanged sampleDom
        (sampleFieldManager\<lparr>lastValues := [(''ae_sf_a'', js ''Account_ID_123'')]\<rparr>) ''ae_sf_a''
     = (False, sampleFieldManager\<lparr>lastValues := [(''ae_sf_a'', js ''Account_ID_123'')]\<rparr>)"
proof -
  have h: "hasFieldChanged sampleDom sampleFieldManager ''ae_sf_a''
     = (True, sampleFieldManager\<lparr>lastValues := [(''ae_sf_a'', js ''Account_ID_123'')]\<rparr>)"
    by (simp add: fm_eval js_def)
  from h hasFieldChanged_once [OF h] show ?thesis by simp
qed

lemma keys_scanField:
  "keys (fst (scanField cfg d st field)) = insert (el_id d field) (keys (fst st))"
  by (auto simp: scanField_def Let_def registerField_def hasField_def dom_update
           split: option.splits)

lemma keys_foldl_scanField:
  "keys (fst (foldl (scanField cfg d) st fs)) = keys (fst st) \<union> el_id d ` set fs"
  by (induction fs arbitrary: st) (auto simp: keys_scanField)

lemma keys_delete: "fst ` set (AList.delete k al) = fst ` set al - {k}"
  by (auto simp: AList.delete_eq)

lemma keys_unregisterStep:
  "keys (fst (unregisterStep st fid)) = keys (fst st) - {fid}"
  by (auto simp: unregisterStep_def unregisterField_def getField_def Let_def keys_delete
                 map_of_eq_None_iff
           split: option.splits)

lemma keys_foldl_unregisterStep:
  "keys (fst (foldl unregisterStep st fids)) = keys (fst st) - set fids"
  by (induction fids arbitrary: st) (auto simp: keys_unregisterStep)

lemma scanField_known:
  "hasField (fst st) (el_id d field) \<Longrightarrow> scanField cfg d st field = st"
  by (simp add: scanField_def)

lemma foldl_scanField_known:
  "\<forall>f \<in> set fs. hasField (fst st) (el_id d f) \<Longrightarrow> foldl (scanField cfg d) st fs = st"
  by (induction fs) (simp_all add: scanField_known)

lemma keys_scanAndRegister:
  "keys (fst (scanAndRegister cfg d container fm)) = el_id d ` set (foundFields d container)"
  by (auto simp: scanAndRegister_def Let_def keys_foldl_unregisterStep keys_foldl_scanField
                 foundFields_def)

text \<open>
  C6. Reconciliation is idempotent: for every registry state, a second
  \<open>scanAndRegister\<close> on the same container of the same page registers no field and
  unregisters none, and returns the manager (the tracked fields and everything else in
  it) as the first call left it.
\<close>

theorem scanAndRegister_idempotent:
  "scanAndRegister cfg d container (fst (scanAndRegister cfg d container fm))
   = (fst (scanAndRegister cfg d container fm), [])"
proof -
  let ?fm1 = "fst (scanAndRegister cfg d container fm)"
  let ?fs = "foundFields d container"
  have k: "keys ?fm1 = el_id d ` set ?fs" by (rule keys_scanAndRegister)
  then have "\<forall>f \<in> set ?fs. hasField (fst (?fm1, [])) (el_id d f)"
    by (simp add: hasField_def)
  then have scan: "foldl (scanField cfg d) (?fm1, []) ?fs = (?fm1, [])"
    by (rule foldl_scanField_known)
  have "filter (\<lambda>fid. fid \<notin> set (map (el_id d) ?fs)) (map fst (registeredFields ?fm1)) = []"
    using k by (auto simp: filter_empty_conv)
  with scan show ?thesis
    unfolding scanAndRegister_def [of cfg d container ?fm1] Let_def foundFields_def [symmetric]
    by simp
qed

theorem scanAndRegister_idempotent_witness:
  "snd (scanAndRegister sampleConfig sampleDom 1 sampleFieldManager) = [Registered ''ae_sf_b'']
   \<and> scanAndRegister sampleConfig sampleDom 1
        (fst (scanAndRegister sampleConfig sampleDom 1 sampleFieldManager))
     = (fst (scanAndRegister sampleConfig sampleDom 1 sampleFieldManager), [])"
proof -
  have "snd (scanAndRegister sampleConfig sampleDom 1 sampleFieldManager)
        = [Registered ''ae_sf_b'']"
    by (simp add: fm_eval)
  with scanAndRegister_idempotent [of sampleConfig sampleDom 1 sampleFieldManager]
  show ?thesis by simp
qed


section \<open>ContainerDetector: a threshold crossing inside the active container\<close>

text \<open>
  C4 does not hold of the code. A threshold crossing observed by a fresh scan should fire
  exactly one context-changed notification carrying the new classification. The first
  scan makes node 1 the active container with two fields, below the threshold of five.
  The next scan, and a forced one, find the same container with six fields, at the
  threshold or above: they fire no notification at all and the classification flag stays
  false, because \<open>detectContext\<close> is reached only when the active container is replaced.
\<close>

theorem crossing_in_same_container_unnoticed:
  "fst (updateActiveContainer sampleConfig sampleDom 1000 newContainerDetector)
     = \<lparr>activeContainer = Some 1, isProcessDesigner = False, lastScanTime = 0, retryCount = 0\<rparr>
   \<and> \<not> classify sampleConfig sampleDom (Some 1)
   \<and> classify sampleConfig grownDom (Some 1)
   \<and> updateActiveContainer sampleConfig grownDom 2000
        \<lparr>activeContainer = Some 1, isProcessDesigner = False, lastScanTime = 0, retryCount = 0\<rparr>
     = (\<lparr>activeContainer = Some 1, isProcessDesigner = False, lastScanTime = 0, retryCount = 0\<rparr>,
        [])
   \<and> forceUpdate sampleConfig grownDom 2000
        \<lparr>activeContainer = Some 1, isProcessDesigner = False, lastScanTime = 0, retryCount = 0\<rparr>
     = (\<lparr>activeContainer = Some 1, isProcessDesigner = False, lastScanTime = 0, retryCount = 0\<rparr>,
        [])"
  by (simp add: detector_eval)


section \<open>ValidationOrchestrator: the statistics of a full run\<close>

lemma validate_sample_value:
  "validate (newValidatorEngine defaultEngineConfig) (js ''Account_ID_123'')
   = \<lparr>isValid = True, errors = []\<rparr>"
  by (simp add: engine_eval string_eval)

text \<open>
  C1 does not hold of the code. With one tracked field whose value \<open>Account_ID_123\<close>
  passes validation, \<open>runFullValidation\<close> records the field as valid and sets
  \<open>totalFields\<close> to 1, but leaves \<open>validFields\<close> at 0 and \<open>invalidFields\<close> at 1: the
  batch loop increments the valid count when the result is not valid.
  \<open>validateSingleField\<close> on the same field counts it as valid.
\<close>

theorem runFullValidation_counts_swapped:
  "registeredFields (fieldManager (runFullValidation sampleDom 7 sampleOrchestrator))
     = [(''ae_sf_a'',
         \<lparr>element = 10, fd_isValid = Some True, fd_errors = [], fd_lastValidated = 7\<rparr>)]
   \<and> statsManager (runFullValidation sampleDom 7 sampleOrchestrator)
     = \<lparr>totalFields = 1, validFields = 0, invalidFields = 1, lastValidated = Some 7\<rparr>
   \<and> statsManager (snd (validateSingleField sampleDom 7 sampleOrchestrator 10 False))
     = \<lparr>totalFields = 0, validFields = 1, invalidFields = 0, lastValidated = None\<rparr>"
  by (simp add: orch_eval fm_eval validate_sample_value upt_rec Let_def)


section \<open>Evaluation order of the rule registry\<close>

lemma executeRules_total:
  "list_all (\<lambda>r. check r v \<noteq> None) rs \<Longrightarrow>
   executeRules v rs = Some (map message (filter (\<lambda>r. check r v = Some False) rs))"
  by (induction rs) auto

lemma remove_as_filter:
  "distinct (map name xs) \<Longrightarrow> snd (remove_rule xs n) = filter (\<lambda>r. name r \<noteq> n) xs"
proof (induction xs)
  case Nil
  then show ?case by (simp add: remove_rule_def)
next
  case (Cons x xs)
  show ?case
  proof (cases "name x = n")
    case True
    from Cons.prems have "name x \<notin> set (map name xs)" by simp
    with True have "\<forall>r \<in> set xs. name r \<noteq> n" by (metis image_eqI set_map)
    then have "filter (\<lambda>r. name r \<noteq> n) xs = xs" by (simp add: filter_id_conv)
    with True show ?thesis by (simp add: remove_rule_def)
  next
    case False
    with Cons show ?thesis by (simp add: remove_rule_def split: option.splits)
  qed
qed

lemma overwrite_as_map:
  "distinct (map name xs) \<Longrightarrow> findIndex (\<lambda>x. name x = name r) xs = Some i \<Longrightarrow>
   xs[i := r] = map (overwrite r) xs"
proof (induction xs arbitrary: i)
  case Nil
  then show ?case by simp
next
  case (Cons x xs)
  show ?case
  proof (cases "name x = name r")
    case True
    from Cons.prems have "name x \<notin> set (map name xs)" by simp
    with True have "\<forall>y \<in> set xs. name y \<noteq> name r" by (metis image_eqI set_map)
    then have m: "map (overwrite r) xs = xs" by (simp add: overwrite_def map_idI)
    from True have h: "overwrite r x = r" by (simp add: overwrite_def)
    from True Cons.prems(2) have "i = 0" by simp
    with m h show ?thesis by simp
  next
    case False
    with Cons show ?thesis by (auto simp: overwrite_def split: option.splits)
  qed
qed

lemma insort_key_map:
  "f (g x) = f x \<Longrightarrow> \<forall>y \<in> set ys. f (g y) = f y \<Longrightarrow>
   insort_key f (g x) (map g ys) = map g (insort_key f x ys)"
  by (induction ys) auto

lemma sort_key_map:
  "\<forall>x \<in> set xs. f (g x) = f x \<Longrightarrow> sort_key f (map g xs) = map g (sort_key f xs)"
  by (induction xs) (auto simp: insort_key_map)

lemma sort_key_stable': "filter (\<lambda>x. f k = f x) (sort_key f xs) = filter (\<lambda>x. f k = f x) xs"
  using sort_key_stable [of f "f k" xs] by (simp add: eq_commute)

lemma sort_key_append_sorted:
  "sort_key f (sort_key f xs @ ys) = sort_key f (xs @ ys)"
proof (rule sym, rule properties_for_sort_key)
  show "mset (sort_key f (sort_key f xs @ ys)) = mset (xs @ ys)" by simp
  show "sorted (map f (sort_key f (sort_key f xs @ ys)))" by simp
  fix k
  show "filter (\<lambda>x. f k = f x) (sort_key f (sort_key f xs @ ys)) = filter (\<lambda>x. f k = f x) (xs @ ys)"
    by (simp add: sort_key_stable')
qed

lemma sort_key_idem: "sort_key f (sort_key f xs) = sort_key f xs"
  by (simp add: sort_key_id_if_sorted)

lemma findIndex_unique:
  assumes "distinct (map name xs)" "findIndex (\<lambda>x. name x = n) xs = Some i"
    "x \<in> set xs" "name x = n"
  shows "x = xs ! i"
proof -
  from assms(2) have "i < length xs" "name (xs ! i) = n" using findIndex_Some by fastforce+
  with assms(1,3,4) show ?thesis
    by (metis distinct_map inj_onD nth_mem)
qed

lemma step_simulation:
  assumes d: "distinct (map name S)"
    and k: "keeps_priorities (sortByPriority S) [x]"
  shows "apply_op (sortByPriority S) x = sortByPriority (spec_register S x)"
proof (cases x)
  case (Remove n)
  have "distinct (map name (sortByPriority S))" using d by (simp add: distinct_names_sort)
  then show ?thesis using d Remove
    by (simp add: remove_as_filter sortByPriority_def filter_sort)
next
  case (Add r)
  show ?thesis
  proof (cases "findIndex (\<lambda>x. name x = name r) S")
    case None
    then have "findIndex (\<lambda>x. name x = name r) (sortByPriority S) = None"
      by (simp add: findIndex_None sortByPriority_def)
    with None Add show ?thesis
      by (simp add: add_rule_def sortByPriority_def sort_key_append_sorted)
  next
    case (Some j)
    from findIndex_Some [OF Some] have "S ! j \<in> set S" "name (S ! j) = name r" by simp_all
    then have "findIndex (\<lambda>x. name x = name r) (sortByPriority S) \<noteq> None"
      by (auto simp: findIndex_None sortByPriority_def)
    then obtain i where i: "findIndex (\<lambda>x. name x = name r) (sortByPriority S) = Some i" by blast
    have ds: "distinct (map name (sortByPriority S))" using d by (simp add: distinct_names_sort)
    from k Add i have p: "priorityOf (sortByPriority S ! i) = priorityOf r" by simp
    have same: "\<forall>x \<in> set S. priorityOf (overwrite r x) = priorityOf x"
    proof
      fix x assume "x \<in> set S"
      then have "x \<in> set (sortByPriority S)" by (simp add: sortByPriority_def)
      then show "priorityOf (overwrite r x) = priorityOf x"
        using findIndex_unique [OF ds i] p by (auto simp: overwrite_def)
    qed
    have "sortByPriority ((sortByPriority S)[i := r]) = sortByPriority (map (overwrite r) (sortByPriority S))"
      using overwrite_as_map [OF ds i] by simp
    also have "\<dots> = map (overwrite r) (sortByPriority (sortByPriority S))"
      using same by (simp add: sortByPriority_def sort_key_map)
    also have "\<dots> = map (overwrite r) (sortByPriority S)"
      by (simp add: sortByPriority_def sort_key_idem)
    also have "\<dots> = sortByPriority (map (overwrite r) S)"
      using same by (simp add: sortByPriority_def sort_key_map)
    also have "\<dots> = sortByPriority (S[j := r])"
      using overwrite_as_map [OF d Some] by simp
    finally show ?thesis using Add Some i by (simp add: add_rule_def)
  qed
qed

lemma distinct_names_spec_register:
  assumes "distinct (map name S)"
  shows "distinct (map name (spec_register S x))"
proof (cases x)
  case (Remove n)
  with assms show ?thesis by (simp add: distinct_names_remove)
next
  case (Add r)
  show ?thesis
  proof (cases "findIndex (\<lambda>x. name x = name r) S")
    case None
    then have "name r \<notin> set (map name S)" by (auto simp: findIndex_None)
    with assms None Add show ?thesis by simp
  next
    case (Some i)
    then have "i < length S" "name (S ! i) = name r" using findIndex_Some by fastforce+
    then have "map name (S[i := r]) = map name S"
      by (simp add: map_update list_update_same_conv)
    with assms Some Add show ?thesis by simp
  qed
qed

lemma keeps_priorities_head:
  "keeps_priorities rs (x # ops) \<Longrightarrow> keeps_priorities rs [x] \<and> keeps_priorities (apply_op rs x) ops"
  by (cases x) auto

lemma simulation:
  "distinct (map name S) \<Longrightarrow> keeps_priorities (sortByPriority S) ops \<Longrightarrow>
   foldl apply_op (sortByPriority S) ops = sortByPriority (foldl spec_register S ops)"
proof (induction ops arbitrary: S)
  case Nil
  then show ?case by simp
next
  case (Cons x ops)
  from Cons.prems(2) have h: "keeps_priorities (sortByPriority S) [x]"
    and t: "keeps_priorities (apply_op (sortByPriority S) x) ops"
    using keeps_priorities_head by blast+
  have step: "apply_op (sortByPriority S) x = sortByPriority (spec_register S x)"
    using step_simulation [OF Cons.prems(1) h] .
  have "distinct (map name (spec_register S x))"
    using Cons.prems(1) by (rule distinct_names_spec_register)
  with t step Cons.IH [of "spec_register S x"] show ?case by simp
qed

lemma sorted_apply_op:
  assumes "distinct (map name rs)" "sorted (map priorityOf rs)"
  shows "sorted (map priorityOf (apply_op rs x))"
proof (cases x)
  case (Add r)
  then show ?thesis by (simp add: add_rule_def sortByPriority_def)
next
  case (Remove n)
  with assms show ?thesis by (simp add: remove_as_filter sorted_filter)
qed

lemma sorted_foldl_apply_op:
  "distinct (map name rs) \<Longrightarrow> sorted (map priorityOf rs) \<Longrightarrow>
   sorted (map priorityOf (foldl apply_op rs ops))"
  by (induction ops arbitrary: rs) (simp_all add: sorted_apply_op distinct_names_apply_op)

lemma sorted_default: "sorted (map priorityOf initializeDefaultRules)"
  by (simp add: initializeDefaultRules_def sortByPriority_def)

lemma distinct_names_defaultRules: "distinct (map name defaultRules)"
  by (simp add: defaultRules_def)

text \<open>
  C5, as stated, fails on the order of ties. After the no-spaces rule has been
  re-registered with priority 1 and then with priority 2, it shares priority 2 with
  starts-with-capital, which was registered before it (under either reading of
  registration order: by first or by latest registration of the name). For the value
  \<open>a b\<close> the code reports the no-spaces message first; the order the specification words
  puts the starts-with-capital message first.
\<close>

theorem ties_not_in_registration_order:
  "executeRules (js ''a b'') (apply_ops reprioritised initializeDefaultRules)
     = Some [''No spaces allowed'', ''Must start with capital letter'',
             ''Only letters, numbers, and underscore allowed'']
   \<and> spec_evaluate (js ''a b'') reprioritised
     = [''Must start with capital letter'', ''No spaces allowed'',
        ''Only letters, numbers, and underscore allowed'']
   \<and> map (\<lambda>r. (name r, priority r)) (take 3 (apply_ops reprioritised initializeDefaultRules))
     = [(''not-empty'', Some 1), (''no-spaces'', Some 2), (''starts-with-capital'', Some 2)]"
  by (simp add: registry_eval string_eval)

text \<open>
  C5, amended. For every history of add and remove operations over the defaults and
  every value \<open>v\<close> on which no predicate of the resulting rule list throws,
  \<open>executeRules\<close> returns exactly the messages of the rules whose predicate is false on
  \<open>v\<close>, one per such rule, in the order of the rule list; that list is in ascending
  priority; and rules of equal priority are in insertion order as long as no add has
  overwritten a rule with a rule of a different priority.
\<close>

theorem evaluate_in_list_order:
  "(list_all (\<lambda>r. check r v \<noteq> None) (apply_ops ops initializeDefaultRules) \<longrightarrow>
      executeRules v (apply_ops ops initializeDefaultRules)
        = Some (map message (filter (\<lambda>r. check r v = Some False)
                               (apply_ops ops initializeDefaultRules))))
   \<and> sorted (map priorityOf (apply_ops ops initializeDefaultRules))
   \<and> (keeps_priorities initializeDefaultRules ops \<longrightarrow>
        apply_ops ops initializeDefaultRules = spec_order ops)"
proof (intro conjI impI)
  assume "list_all (\<lambda>r. check r v \<noteq> None) (apply_ops ops initializeDefaultRules)"
  then show "executeRules v (apply_ops ops initializeDefaultRules)
        = Some (map message (filter (\<lambda>r. check r v = Some False)
                               (apply_ops ops initializeDefaultRules)))"
    by (rule executeRules_total)
next
  show "sorted (map priorityOf (apply_ops ops initializeDefaultRules))"
    unfolding apply_ops_def
    by (rule sorted_foldl_apply_op [OF distinct_names_default sorted_default])
next
  assume "keeps_priorities initializeDefaultRules ops"
  then show "apply_ops ops initializeDefaultRules = spec_order ops"
    unfolding apply_ops_def spec_order_def initializeDefaultRules_def
    using simulation [OF distinct_names_defaultRules] by (simp add: sortByPriority_def)
qed

theorem evaluate_in_list_order_witness:
  "list_all (\<lambda>r. check r (js ''a b'') \<noteq> None) (apply_ops extended initializeDefaultRules)
   \<and> keeps_priorities initializeDefaultRules extended
   \<and> executeRules (js ''a b'') (apply_ops extended initializeDefaultRules)
     = Some [''Must start with capital letter'', ''Cannot start with lowercase letter'',
             ''No spaces allowed'', ''Only letters, numbers, and underscore allowed'']
   \<and> sorted (map priorityOf (apply_ops extended initializeDefaultRules))
   \<and> apply_ops extended initializeDefaultRules = spec_order extended"
proof -
  have h1: "list_all (\<lambda>r. check r (js ''a b'') \<noteq> None)
              (apply_ops extended initializeDefaultRules)"
    by (simp add: registry_eval)
  have h2: "keeps_priorities initializeDefaultRules extended"
    by (simp add: registry_eval)
  have v: "map message (filter (\<lambda>r. check r (js ''a b'') = Some False)
                          (apply_ops extended initializeDefaultRules))
           = [''Must start with capital letter'', ''Cannot start with lowercase letter'',
              ''No spaces allowed'', ''Only letters, numbers, and underscore allowed'']"
    by (simp add: registry_eval string_eval)
  note t = evaluate_in_list_order [of "js ''a b''" extended]
  from t h1 have e: "executeRules (js ''a b'') (apply_ops extended initializeDefaultRules)
      = Some (map message (filter (\<lambda>r. check r (js ''a b'') = Some False)
                             (apply_ops extended initializeDefaultRules)))"
    by blast
  from t have srt: "sorted (map priorityOf (apply_ops extended initializeDefaultRules))"
    by blast
  from t h2 have eq: "apply_ops extended initializeDefaultRules = spec_order extended"
    by blast
  from e have e': "executeRules (js ''a b'') (apply_ops extended initializeDefaultRules)
      = Some [''Must start with capital letter'', ''Cannot start with lowercase letter'',
              ''No spaces allowed'', ''Only letters, numbers, and underscore allowed'']"
    by (simp only: v)
  from h1 h2 e' srt eq show ?thesis by (intro conjI)
qed

end
